theory Spec2Isabelle
  imports Main
begin

section \<open>Python strings\<close>

text \<open>
  A Python \<open>str\<close> is modelled as a \<open>string\<close>: one \<open>char\<close> per code point, for texts
  whose code points lie below 256. \<open>isspace\<close> is the set that both \<open>str.strip\<close> and the
  regular-expression class \<open>\s\<close> use on such code points.
\<close>

definition isspace :: "char \<Rightarrow> bool" where
  "isspace c =
     (let n = (of_char c :: nat)
      in (9 \<le> n \<and> n \<le> 13) \<or> (28 \<le> n \<and> n \<le> 32) \<or> n = 133 \<or> n = 160)"

definition isdigit :: "char \<Rightarrow> bool" where
  "isdigit c = (let n = (of_char c :: nat) in 48 \<le> n \<and> n \<le> 57)"

definition lstrip :: "string \<Rightarrow> string" where
  "lstrip s = dropWhile isspace s"

definition rstrip :: "string \<Rightarrow> string" where
  "rstrip s = rev (dropWhile isspace (rev s))"

definition strip :: "string \<Rightarrow> string" where
  "strip s = rstrip (lstrip s)"

fun startswith :: "string \<Rightarrow> string \<Rightarrow> bool" where
  "startswith s [] = True"
| "startswith [] (p # ps) = False"
| "startswith (c # cs) (p # ps) = (c = p \<and> startswith cs ps)"

text \<open>\<open>s.split(sep)\<close> for a one-character separator: every occurrence splits.\<close>

fun split :: "char \<Rightarrow> string \<Rightarrow> string list" where
  "split sep [] = [[]]"
| "split sep (c # cs) =
     (if c = sep then [] # split sep cs
      else (case split sep cs of
              [] \<Rightarrow> [[c]]
            | w # ws \<Rightarrow> (c # w) # ws))"

text \<open>\<open>sep.join(xs)\<close>.\<close>

fun join :: "string \<Rightarrow> string list \<Rightarrow> string" where
  "join sep [] = []"
| "join sep [x] = x"
| "join sep (x # y # ys) = x @ sep @ join sep (y # ys)"

text \<open>The slice \<open>s[i:j]\<close> for \<open>0 \<le> i\<close> and \<open>0 \<le> j\<close>.\<close>

definition slice :: "string \<Rightarrow> nat \<Rightarrow> nat \<Rightarrow> string" where
  "slice s i j = take (j - i) (drop i s)"

section \<open>The regular expressions of the source\<close>

text \<open>
  Python's \<open>re\<close> is a backtracking matcher. A pattern tried at one position is a function
  from the rest of the text to the length it consumes; \<open>None\<close> is failure.

  \<open>lit d\<close> is the literal \<open>d\<close>. \<open>lazy_dot_plus k\<close> is the lazy group \<open>(.+?)\<close> followed by
  the rest of the pattern \<open>k\<close>: the group takes one character other than a newline, then
  \<open>k\<close> is tried, and each time \<open>k\<close> fails the group takes one more character. The result
  is the length of the group and what \<open>k\<close> returned.
\<close>

definition lit :: "string \<Rightarrow> string \<Rightarrow> nat option" where
  "lit d s = (if startswith s d then Some (length d) else None)"

fun lazy_dot_plus :: "(string \<Rightarrow> 'a option) \<Rightarrow> string \<Rightarrow> (nat \<times> 'a) option" where
  "lazy_dot_plus k [] = None"
| "lazy_dot_plus k (c # cs) =
     (if c = CHR 0x0A then None
      else (case k cs of
              Some r \<Rightarrow> Some (1, r)
            | None \<Rightarrow> map_option (\<lambda>(n, r). (Suc n, r)) (lazy_dot_plus k cs)))"

text \<open>
  A match at a position: the length of the whole match (group 0) and the captured groups
  that the source reads.
\<close>

type_synonym pattern = "string \<Rightarrow> (nat \<times> string list) option"

text \<open>\<open>\*\*(.+?)\*\*\<close>, with group 1.\<close>

definition star_pattern :: pattern where
  "star_pattern s =
     (if startswith s ''**'' then
        (case lazy_dot_plus (lit ''**'') (drop 2 s) of
           None \<Rightarrow> None
         | Some (n, m) \<Rightarrow> Some (2 + n + m, [take n (drop 2 s)]))
      else None)"

text \<open>
  \<open>(\*\*|__)(.+?)\1\<close>, with group 2. The two alternatives of group 1 exclude each other,
  so backtracking into the alternation never finds a second way.
\<close>

definition bold_pattern :: pattern where
  "bold_pattern s =
     (let d = (if startswith s ''**'' then Some ''**''
               else if startswith s ''__'' then Some ''__'' else None)
      in case d of
           None \<Rightarrow> None
         | Some d \<Rightarrow>
             (case lazy_dot_plus (lit d) (drop 2 s) of
                None \<Rightarrow> None
              | Some (n, m) \<Rightarrow> Some (2 + n + m, [take n (drop 2 s)])))"

text \<open>\<open>`(.+?)`\<close>, with group 1.\<close>

definition code_pattern :: pattern where
  "code_pattern s =
     (if startswith s ''`'' then
        (case lazy_dot_plus (lit ''`'') (drop 1 s) of
           None \<Rightarrow> None
         | Some (n, m) \<Rightarrow> Some (1 + n + m, [take n (drop 1 s)]))
      else None)"

text \<open>
  \<open>\[(.+?)\]\((.+?)\)\<close>, with groups 1 and 2. What follows group 1 is \<open>\]\(\<close>, the second
  lazy group and \<open>\)\<close>; when any of it fails, group 1 takes one more character.
\<close>

definition link_tail :: "string \<Rightarrow> (nat \<times> nat) option" where
  "link_tail s =
     (if startswith s '']('' then lazy_dot_plus (lit '')'') (drop 2 s) else None)"

definition link_pattern :: pattern where
  "link_pattern s =
     (if startswith s ''['' then
        (case lazy_dot_plus link_tail (drop 1 s) of
           None \<Rightarrow> None
         | Some (n1, n2, m) \<Rightarrow>
             Some (1 + n1 + 2 + n2 + m,
                   [take n1 (drop 1 s), take n2 (drop (1 + n1 + 2) s)]))
      else None)"

text \<open>
  \<open>re.finditer(p, text)\<close>: the matches from left to right, each search starting where the
  last match ended. A match is its start, its end and its groups. None of the patterns
  above matches the empty string, so the special treatment Python gives to empty matches
  is not modelled: after a match of length \<open>n\<close> the scan goes on \<open>n\<close> characters further
  (at least one).
\<close>

record rmatch =
  m_start :: nat
  m_end :: nat
  m_groups :: "string list"

function finditer :: "pattern \<Rightarrow> nat \<Rightarrow> string \<Rightarrow> rmatch list" where
  "finditer p pos [] = []"
| "finditer p pos (c # cs) =
     (case p (c # cs) of
        None \<Rightarrow> finditer p (Suc pos) cs
      | Some (n, gs) \<Rightarrow>
          \<lparr>m_start = pos, m_end = pos + n, m_groups = gs\<rparr>
            # finditer p (pos + max 1 n) (drop (n - 1) cs))"
  by pat_completeness auto
termination
  by (relation "measure (\<lambda>(p, pos, s). length s)") auto

text \<open>\<open>re.sub(r'\*\*(.+?)\*\*', r'\1', text)\<close>: every match is replaced by its group 1.\<close>

function strip_stars :: "string \<Rightarrow> string" where
  "strip_stars [] = []"
| "strip_stars (c # cs) =
     (case star_pattern (c # cs) of
        None \<Rightarrow> c # strip_stars cs
      | Some (n, gs) \<Rightarrow> gs ! 0 @ strip_stars (drop (n - 1) cs))"
  by pat_completeness auto
termination
  by (relation "measure length") auto

section \<open>The inline span formatter\<close>

text \<open>
  A run of a paragraph: its text and the properties the source sets on it. The colour is
  black on every run and is left out.
\<close>

datatype font = SimSun | SimHei | Courier_New

record run =
  run_text :: string
  font_name :: font
  bold :: bool
  underline :: bool

definition plain_run :: "string \<Rightarrow> run" where
  "plain_run t = \<lparr>run_text = t, font_name = SimSun, bold = False, underline = False\<rparr>"

text \<open>An entry of the list \<open>formats\<close>.\<close>

record format =
  f_start :: nat
  f_end :: nat
  f_content :: string
  f_url :: "string option"
  f_type :: string

text \<open>The overlap test of the source, for a candidate match against one accepted format.\<close>

definition hits :: "rmatch \<Rightarrow> format \<Rightarrow> bool" where
  "hits m fmt =
     ((m_start m \<ge> f_start fmt \<and> m_start m < f_end fmt) \<or>
      (m_end m > f_start fmt \<and> m_end m \<le> f_end fmt))"

definition is_valid :: "rmatch \<Rightarrow> format list \<Rightarrow> bool" where
  "is_valid m formats = (\<not> list_ex (hits m) formats)"

definition bold_format :: "rmatch \<Rightarrow> format" where
  "bold_format m =
     \<lparr>f_start = m_start m, f_end = m_end m, f_content = m_groups m ! 0,
      f_url = None, f_type = ''bold''\<rparr>"

definition code_format :: "rmatch \<Rightarrow> format" where
  "code_format m =
     \<lparr>f_start = m_start m, f_end = m_end m, f_content = m_groups m ! 0,
      f_url = None, f_type = ''code''\<rparr>"

definition link_format :: "rmatch \<Rightarrow> format" where
  "link_format m =
     \<lparr>f_start = m_start m, f_end = m_end m, f_content = m_groups m ! 0,
      f_url = Some (m_groups m ! 1), f_type = ''link''\<rparr>"

text \<open>The loops over the code matches and over the link matches.\<close>

fun add_checked :: "(rmatch \<Rightarrow> format) \<Rightarrow> rmatch list \<Rightarrow> format list \<Rightarrow> format list" where
  "add_checked mk [] formats = formats"
| "add_checked mk (m # ms) formats =
     add_checked mk ms (if is_valid m formats then formats @ [mk m] else formats)"

text \<open>
  The list \<open>formats\<close> after the three scans and the sort, from the text as it is after
  the double asterisks have been removed.
\<close>

definition find_formats :: "string \<Rightarrow> format list" where
  "find_formats text =
     (let formats = map bold_format (finditer bold_pattern 0 text);
          formats = add_checked code_format (finditer code_pattern 0 text) formats;
          formats = add_checked link_format (finditer link_pattern 0 text) formats
      in sort_key f_start formats)"

definition format_run :: "format \<Rightarrow> run" where
  "format_run fmt =
     (let r = plain_run (f_content fmt)
      in if f_type fmt = ''bold'' then r\<lparr>bold := True\<rparr>
         else if f_type fmt = ''code'' then r\<lparr>font_name := Courier_New\<rparr>
         else if f_type fmt = ''link'' then r\<lparr>underline := True\<rparr>
         else r)"

fun emit :: "string \<Rightarrow> nat \<Rightarrow> format list \<Rightarrow> run list" where
  "emit text last_end [] =
     (if last_end < length text then [plain_run (drop last_end text)] else [])"
| "emit text last_end (fmt # fmts) =
     (if f_start fmt > last_end then [plain_run (slice text last_end (f_start fmt))] else [])
     @ format_run fmt # emit text (f_end fmt) fmts"

text \<open>The runs that \<open>process_markdown_text\<close> adds to its paragraph.\<close>

definition process_markdown_text :: "string \<Rightarrow> run list" where
  "process_markdown_text text0 =
     (let text = strip_stars text0;
          formats = find_formats text
      in if formats = [] then [plain_run text] else emit text 0 formats)"

section \<open>Tables\<close>

text \<open>
  The document is the list of the blocks added to it, in order. A heading is its level and
  the text of its single run; a table is its numbers of rows and columns and, for each
  cell, the runs of the cell's first paragraph; a list item, a quote and a paragraph are
  their runs; a code block is the text of its single run. \<open>Rule\<close> is the empty paragraph
  with a bottom border and \<open>Blank\<close> the empty paragraph. The calls into the document
  library that build these blocks are taken to succeed.
\<close>

datatype block =
    Heading nat string
  | Rule
  | Table nat nat "run list list list"
  | List_Bullet "run list"
  | List_Number "run list"
  | Code_Block string
  | Quote "run list"
  | Paragraph "run list"
  | Blank

text \<open>
  \<open>re.match(r'^[\|\s\-:]+$', row)\<close>: the class is greedy and contains the newline, so the
  match succeeds exactly on a non-empty row of characters of the class.
\<close>

definition separator_char :: "char \<Rightarrow> bool" where
  "separator_char c = (c = CHR ''|'' \<or> isspace c \<or> c = CHR ''-'' \<or> c = CHR '':'')"

definition separator_row :: "string \<Rightarrow> bool" where
  "separator_row row = (row \<noteq> [] \<and> list_all separator_char row)"

definition row_cells :: "string \<Rightarrow> string list" where
  "row_cells row = filter (\<lambda>cell. cell \<noteq> []) (map strip (split CHR ''|'' row))"

definition fill_row :: "nat \<Rightarrow> string list \<Rightarrow> run list list \<Rightarrow> run list list" where
  "fill_row max_cols cells table_row =
     fold (\<lambda>(j, cell_content) r.
             if j < max_cols then r[j := r ! j @ process_markdown_text cell_content] else r)
          (enumerate 0 cells) table_row"

definition create_table :: "string \<Rightarrow> block" where
  "create_table markdown_table =
     (let rows = map strip (split CHR 0x0A (strip markdown_table));
          rows = (if length rows > 1 \<and> separator_row (rows ! 1)
                  then [rows ! 0] @ drop 2 rows else rows);
          max_cols = fold (\<lambda>row m. max m (length (row_cells row))) rows 0
      in Table (length rows) max_cols
           (map (\<lambda>row. fill_row max_cols (row_cells row) (replicate max_cols [])) rows))"

section \<open>The line dispatcher\<close>

text \<open>
  \<open>re.match(r'^(---|\*\*\*|___)$', line)\<close>; \<open>$\<close> matches at the end of the text and before
  a newline that ends it.
\<close>

definition rule_pattern :: "string \<Rightarrow> bool" where
  "rule_pattern line =
     list_ex (\<lambda>d. line = d \<or> line = d @ [CHR 0x0A]) [''---'', ''***'', ''___'']"

text \<open>\<open>re.match(r'^[\*\-\+]\s', line)\<close>.\<close>

definition bullet_char :: "char \<Rightarrow> bool" where
  "bullet_char c = (c = CHR ''*'' \<or> c = CHR ''-'' \<or> c = CHR ''+'')"

fun bullet_start :: "string \<Rightarrow> bool" where
  "bullet_start (c # d # s) = (bullet_char c \<and> isspace d)"
| "bullet_start s = False"

text \<open>
  \<open>re.match(r'^\s*[\*\-\+]\s', line)\<close>: the bullet is not a space, so \<open>\s*\<close> can only
  succeed by taking all the leading space.
\<close>

definition bullet_line :: "string \<Rightarrow> bool" where
  "bullet_line line = bullet_start (dropWhile isspace line)"

text \<open>
  \<open>re.match(r'^\d+\.\s', line)\<close>: the dot is not a digit, so \<open>\d+\<close> can only succeed by
  taking all the leading digits.
\<close>

fun dot_space :: "string \<Rightarrow> bool" where
  "dot_space (c # d # s) = (c = CHR ''.'' \<and> isspace d)"
| "dot_space s = False"

definition number_start :: "string \<Rightarrow> bool" where
  "number_start line = (takeWhile isdigit line \<noteq> [] \<and> dot_space (dropWhile isdigit line))"

text \<open>\<open>re.match(r'^\s*\d+\.\s', line)\<close>.\<close>

definition number_line :: "string \<Rightarrow> bool" where
  "number_line line = number_start (dropWhile isspace line)"

text \<open>
  The inner loops all have the shape
  \<open>while j < len(lines) and P(lines[j]): items.append(f(lines[j])); j += 1\<close>.
  The result is the list of items and the final \<open>j\<close>.
\<close>

function collect ::
  "(string \<Rightarrow> bool) \<Rightarrow> (string \<Rightarrow> 'a) \<Rightarrow> string list \<Rightarrow> nat \<Rightarrow> 'a list \<Rightarrow> 'a list \<times> nat" where
  "collect P f lines j items =
     (if j < length lines \<and> P (lines ! j)
      then collect P f lines (j + 1) (items @ [f (lines ! j)])
      else (items, j))"
  by pat_completeness auto
termination
  by (relation "measure (\<lambda>(P, f, lines, j, items). length lines - j)") auto

declare collect.simps [simp del]

text \<open>
  One iteration of the loop over the lines, for \<open>i < len(lines)\<close>: the blocks added to the
  document and the value of \<open>i\<close> at the end of the branch, before the final \<open>i += 1\<close>.
  That value is an integer: after a list or a quote it is \<open>j - 1\<close>.
\<close>

definition dispatch :: "string list \<Rightarrow> nat \<Rightarrow> block list \<times> int" where
  "dispatch lines i =
     (let line = strip (lines ! i) in
      if startswith line ''#'' then
        (let level = length (takeWhile (\<lambda>c. c = CHR ''#'') line) in
         if level \<le> 6
         then ([Heading level (strip_stars (strip (drop level line)))], int i)
         else ([Paragraph (process_markdown_text line)], int i))
      else if rule_pattern line then ([Rule], int i)
      else if startswith line ''|'' \<and> i + 1 < length lines
              \<and> startswith (strip (lines ! (i + 1))) ''|'' then
        (case collect (\<lambda>l. startswith (strip l) ''|'') strip lines (i + 1) [line] of
           (table_lines, j) \<Rightarrow>
             ([create_table (join [CHR 0x0A] table_lines)], int j - 1))
      else if bullet_start line then
        (case collect bullet_line
                (\<lambda>l. (drop 2 (strip l), length l - length (lstrip l))) lines i [] of
           (list_items, j) \<Rightarrow>
             (map (\<lambda>(item_text, indent). List_Bullet (process_markdown_text item_text))
                  list_items,
              int j - 1))
      else if number_start line then
        (case collect number_line (\<lambda>l. drop 3 (strip l)) lines i [] of
           (list_items, j) \<Rightarrow>
             (map (\<lambda>item_text. List_Number (process_markdown_text item_text)) list_items,
              int j - 1))
      else if startswith line ''```'' then
        (case collect (\<lambda>l. \<not> startswith l ''```'') (\<lambda>l. l) lines (i + 1) [] of
           (code_lines, j) \<Rightarrow> ([Code_Block (join [CHR 0x0A] code_lines)], int j))
      else if startswith line ''>'' then
        (case collect (\<lambda>l. startswith (strip l) ''>'')
                (\<lambda>l. strip (drop 1 (strip l))) lines i [] of
           (quote_lines, j) \<Rightarrow>
             ([Quote (process_markdown_text (join '' '' quote_lines))], int j - 1))
      else if line \<noteq> [] then ([Paragraph (process_markdown_text line)], int i)
      else ([Blank], int i))"

text \<open>
  The loop \<open>while i < len(lines)\<close>, with the document as its state. \<open>None\<close> stands for a
  loop that never ends.
\<close>

partial_function (option) convert_loop ::
  "string list \<Rightarrow> nat \<Rightarrow> block list \<Rightarrow> block list option" where
  "convert_loop lines i document =
     (if i < length lines then
        (case dispatch lines i of
           (blocks, i') \<Rightarrow> convert_loop lines (nat (i' + 1)) (document @ blocks))
      else Some document)"

section \<open>Files and the command line\<close>

text \<open>
  The file system: what each existing path holds, and whether a document can be saved at
  a path. A file that cannot be opened or decoded is \<open>Unreadable\<close>.
\<close>

datatype entry = Markdown string | Word "block list" | Unreadable

record world =
  files :: "string \<Rightarrow> entry option"
  writable :: "string \<Rightarrow> bool"

datatype exn = Read_Error string | Save_Error string

definition path_exists :: "world \<Rightarrow> string \<Rightarrow> bool" where
  "path_exists w p = (files w p \<noteq> None)"

definition read_text :: "world \<Rightarrow> string \<Rightarrow> exn + string" where
  "read_text w p =
     (case files w p of
        Some (Markdown s) \<Rightarrow> Inr s
      | _ \<Rightarrow> Inl (Read_Error p))"

definition save :: "world \<Rightarrow> string \<Rightarrow> block list \<Rightarrow> exn + world" where
  "save w p document =
     (if writable w p then Inr (w\<lparr>files := (files w)(p \<mapsto> Word document)\<rparr>)
      else Inl (Save_Error p))"

text \<open>\<open>p.rfind(c)\<close>: the last index of \<open>c\<close>, or \<open>-1\<close>.\<close>

definition rfind :: "string \<Rightarrow> char \<Rightarrow> int" where
  "rfind p c =
     (case filter (\<lambda>k. p ! k = c) (rev [0..<length p]) of
        [] \<Rightarrow> - 1
      | k # ks \<Rightarrow> int k)"

text \<open>
  \<open>os.path.splitext\<close> of the standard library, with \<open>/\<close> as the separator: the extension
  starts at the last dot of the last component, unless only dots precede it there.
\<close>

definition splitext :: "string \<Rightarrow> string \<times> string" where
  "splitext p =
     (let sepIndex = rfind p CHR ''/'';
          dotIndex = rfind p CHR ''.''
      in if dotIndex > sepIndex
            \<and> list_ex (\<lambda>k. p ! k \<noteq> CHR ''.'') [nat (sepIndex + 1)..<nat dotIndex]
         then (take (nat dotIndex) p, drop (nat dotIndex) p)
         else (p, []))"

text \<open>\<open>not docx_file_path\<close>: the argument is \<open>None\<close> or the empty string.\<close>

definition omitted :: "string option \<Rightarrow> bool" where
  "omitted docx_file_path = (docx_file_path = None \<or> docx_file_path = Some [])"

definition resolve_docx_path :: "string \<Rightarrow> string option \<Rightarrow> string" where
  "resolve_docx_path md_file_path docx_file_path =
     (if omitted docx_file_path then fst (splitext md_file_path) @ ''.docx''
      else the docx_file_path)"

text \<open>
  \<open>convert_markdown_to_word\<close>: \<open>Inl\<close> is an exception, \<open>Inr\<close> the returned path and the file
  system after the save; \<open>None\<close> stands for a conversion that never returns.
\<close>

definition convert_markdown_to_word ::
  "string \<Rightarrow> string option \<Rightarrow> world \<Rightarrow> (exn + string \<times> world) option" where
  "convert_markdown_to_word md_file_path docx_file_path w =
     (let docx_file_path = resolve_docx_path md_file_path docx_file_path in
      case read_text w md_file_path of
        Inl e \<Rightarrow> Some (Inl e)
      | Inr md_content \<Rightarrow>
          (case convert_loop (split CHR 0x0A md_content) 0 [] of
             None \<Rightarrow> None
           | Some document \<Rightarrow>
               (case save w docx_file_path document of
                  Inl e \<Rightarrow> Some (Inl e)
                | Inr w' \<Rightarrow> Some (Inr (docx_file_path, w')))))"

text \<open>
  What \<open>main\<close> prints, one constructor for each message of the source with the value it
  interpolates, the exit code of the process, and the file system it leaves. An empty
  \<open>sys.argv\<close> makes the usage message raise an \<open>IndexError\<close> that nothing catches: the
  interpreter exits with code 1.
\<close>

datatype message = Usage string | Not_Found string | Saved string | Failed exn

record outcome =
  stdout :: "message list"
  exit_code :: int
  final :: world

text \<open>\<open>sys.argv[2] if len(sys.argv) > 2 else None\<close>.\<close>

definition output_arg :: "string list \<Rightarrow> string option" where
  "output_arg argv = (if length argv > 2 then Some (argv ! 2) else None)"

definition main :: "string list \<Rightarrow> world \<Rightarrow> outcome option" where
  "main argv w =
     (if length argv < 2 then
        (case argv of
           [] \<Rightarrow> Some \<lparr>stdout = [], exit_code = 1, final = w\<rparr>
         | prog # args \<Rightarrow> Some \<lparr>stdout = [Usage prog], exit_code = 1, final = w\<rparr>)
      else
        (let md_file_path = argv ! 1 in
         if \<not> path_exists w md_file_path
         then Some \<lparr>stdout = [Not_Found md_file_path], exit_code = 1, final = w\<rparr>
         else
           (let docx_file_path = output_arg argv in
            case convert_markdown_to_word md_file_path docx_file_path w of
              None \<Rightarrow> None
            | Some (Inr (output_path, w')) \<Rightarrow>
                Some \<lparr>stdout = [Saved output_path], exit_code = 0, final = w'\<rparr>
            | Some (Inl e) \<Rightarrow>
                Some \<lparr>stdout = [Failed e], exit_code = 1, final = w\<rparr>)))"

section \<open>Facts about stripping\<close>

lemma rstrip_Nil [simp]: "rstrip [] = []"
  by (simp add: rstrip_def)

lemma rstrip_Cons:
  "rstrip (a # s) = (if list_all isspace (a # s) then [] else a # rstrip s)"
proof (cases "list_all isspace s")
  case True
  then have "dropWhile isspace (rev s) = []"
    by (simp add: list_all_iff)
  with True show ?thesis
    by (simp add: rstrip_def dropWhile_append list_all_iff)
next
  case False
  then have "\<exists>x\<in>set s. \<not> isspace x"
    by (simp add: list_all_iff)
  with False show ?thesis
    by (auto simp add: rstrip_def dropWhile_append list_all_iff)
qed

lemma rstrip_all_space: "list_all isspace s \<Longrightarrow> rstrip s = []"
  by (simp add: rstrip_def list_all_iff)

lemma lstrip_all_space: "list_all isspace s \<Longrightarrow> lstrip s = []"
  by (simp add: lstrip_def list_all_iff)

lemma lstrip_rstrip: "lstrip (rstrip s) = rstrip (lstrip s)"
proof (induction s)
  case Nil
  show ?case by (simp add: lstrip_def)
next
  case (Cons a s)
  show ?case
  proof (cases "list_all isspace (a # s)")
    case True
    then have "rstrip (a # s) = []" and "lstrip (a # s) = []"
      by (rule rstrip_all_space, rule lstrip_all_space)
    then show ?thesis
      by (simp add: lstrip_def)
  next
    case False
    then show ?thesis
      using Cons by (auto simp add: rstrip_Cons lstrip_def)
  qed
qed

lemma rstrip_idem: "rstrip (rstrip s) = rstrip s"
  by (simp add: rstrip_def)

lemma strip_rstrip: "strip (rstrip s) = strip s"
  by (simp add: strip_def lstrip_rstrip rstrip_idem)

lemma rstrip_replicate_append:
  "\<not> isspace c \<Longrightarrow> rstrip (replicate n c @ s) = replicate n c @ rstrip s"
  by (induction n) (simp_all add: rstrip_Cons)

lemma strip_replicate_append:
  "\<not> isspace c \<Longrightarrow> 0 < n \<Longrightarrow> strip (replicate n c @ s) = replicate n c @ rstrip s"
  by (cases n) (simp_all add: strip_def lstrip_def rstrip_replicate_append rstrip_Cons)

lemma startswith_rstrip: "startswith (rstrip s) [c] \<Longrightarrow> startswith s [c]"
  by (cases s) (auto simp add: rstrip_Cons split: if_splits)

section \<open>Inline formatting\<close>

text \<open>
  C1. A text holding \<open>**bold**\<close> should give one bold run with the text \<open>bold\<close>. The source
  removes the double asterisks before it looks for bold text, so the text \<open>**bold**\<close>
  gives one run that is not bold.
\<close>

theorem double_star_text_not_bold:
  "process_markdown_text ''**bold**'' =
     [\<lparr>run_text = ''bold'', font_name = SimSun, bold = False, underline = False\<rparr>]"
  by code_simp

text \<open>
  C2. The accepted matches should not intersect. The overlap test only looks at the two
  ends of the candidate, so a code match or a link match that encloses an accepted match
  is accepted too: in the first text the code match covers 0 to 11 and the bold match 3
  to 8, in the second the link match covers 0 to 12 and the code match 3 to 6.
\<close>

theorem enclosing_match_accepted:
  "find_formats ''`a __b__ c`'' =
     [\<lparr>f_start = 0, f_end = 11, f_content = ''a __b__ c'', f_url = None,
       f_type = ''code''\<rparr>,
      \<lparr>f_start = 3, f_end = 8, f_content = ''b'', f_url = None, f_type = ''bold''\<rparr>]
   \<and> find_formats ''[a `x` b](u)'' =
     [\<lparr>f_start = 0, f_end = 12, f_content = ''a `x` b'', f_url = Some ''u'',
       f_type = ''link''\<rparr>,
      \<lparr>f_start = 3, f_end = 6, f_content = ''x'', f_url = None, f_type = ''code''\<rparr>]"
  by code_simp

text \<open>
  C4. The texts of the runs, in order, should give the text of the line without its
  markers. For a code span that encloses a bold span the runs repeat a part of the line:
  their texts together are longer than the line itself.
\<close>

theorem enclosing_match_repeats_text:
  "map run_text (process_markdown_text ''`a __b__ c`'') = [''a __b__ c'', ''b'', '' c`'']
   \<and> length (concat (map run_text (process_markdown_text ''`a __b__ c`''))) = 13
   \<and> length ''`a __b__ c`'' = 11"
  by code_simp

section \<open>Tables\<close>

text \<open>
  C3. An empty cell between two pipes should stay a blank cell. The source drops every
  empty cell of a row, so in the second row below \<open>b\<close> moves from the third column to the
  second and the third column stays blank.
\<close>

theorem interior_empty_cell_dropped:
  "create_table ''| x | y | z |\<newline>| a |  | b |'' =
     Table 2 3 [[[plain_run ''x''], [plain_run ''y''], [plain_run ''z'']],
                [[plain_run ''a''], [plain_run ''b''], []]]"
  by code_simp

lemma table_example_dispatch:
  "dispatch (split CHR 0x0A ''| A | B |\<newline>|---|---|\<newline>| 1 | 2 |'') 0 =
     ([Table 2 2 [[[plain_run ''A''], [plain_run ''B'']],
                  [[plain_run ''1''], [plain_run ''2'']]]], 2)"
  by code_simp

lemma table_example_length:
  "length (split CHR 0x0A ''| A | B |\<newline>|---|---|\<newline>| 1 | 2 |'') = 3"
  by code_simp

text \<open>
  C6. The three lines \<open>| A | B |\<close>, \<open>|---|---|\<close> and \<open>| 1 | 2 |\<close> convert to a document of
  one table with 2 rows and 2 columns, whose cells hold \<open>A\<close>, \<open>B\<close> and \<open>1\<close>, \<open>2\<close>: the
  separator row gives no row.
\<close>

theorem table_example:
  "convert_loop (split CHR 0x0A ''| A | B |\<newline>|---|---|\<newline>| 1 | 2 |'') 0 [] =
     Some [Table 2 2
             [[[\<lparr>run_text = ''A'', font_name = SimSun, bold = False, underline = False\<rparr>],
               [\<lparr>run_text = ''B'', font_name = SimSun, bold = False, underline = False\<rparr>]],
              [[\<lparr>run_text = ''1'', font_name = SimSun, bold = False, underline = False\<rparr>],
               [\<lparr>run_text = ''2'', font_name = SimSun, bold = False, underline = False\<rparr>]]]]"
  apply (subst convert_loop.simps)
  apply (simp only: table_example_dispatch table_example_length)
  apply (subst convert_loop.simps)
  apply (simp add: table_example_length plain_run_def)
  done

section \<open>Headings\<close>

lemma takeWhile_hash: "\<not> startswith s ''#'' \<Longrightarrow> takeWhile (\<lambda>c. c = CHR ''#'') s = []"
  by (cases s) auto

lemma not_isspace_hash: "\<not> isspace CHR ''#''"
  by (simp add: isspace_def)

lemma startswith_replicate: "0 < n \<Longrightarrow> startswith (replicate n c @ s) [c]"
  by (cases n) auto

lemma heading_line:
  assumes "lines ! i = replicate n CHR ''#'' @ rest" and "\<not> startswith rest ''#''" and "0 < n"
  shows "strip (lines ! i) = replicate n CHR ''#'' @ rstrip rest"
    and "length (takeWhile (\<lambda>c. c = CHR ''#'') (strip (lines ! i))) = n"
    and "startswith (strip (lines ! i)) ''#''"
proof -
  show l: "strip (lines ! i) = replicate n CHR ''#'' @ rstrip rest"
    using assms by (simp add: strip_replicate_append not_isspace_hash)
  have "\<not> startswith (rstrip rest) ''#''"
    using assms(2) startswith_rstrip by blast
  then show "length (takeWhile (\<lambda>c. c = CHR ''#'') (strip (lines ! i))) = n"
    by (simp add: l takeWhile_append takeWhile_hash)
  show "startswith (strip (lines ! i)) ''#''"
    using assms(3) by (simp add: l startswith_replicate)
qed

lemma lazy_until_stars:
  "b \<noteq> [] \<Longrightarrow> CHR ''*'' \<notin> set b \<Longrightarrow> CHR 0x0A \<notin> set b \<Longrightarrow>
   lazy_dot_plus (lit ''**'') (b @ ''**'' @ c) = Some (length b, 2)"
proof (induction b)
  case Nil
  then show ?case by simp
next
  case (Cons x b)
  show ?case
  proof (cases b)
    case Nil
    with Cons.prems show ?thesis
      by (simp add: lit_def)
  next
    case (Cons y b')
    with Cons.prems have "lit ''**'' (b @ ''**'' @ c) = None"
      by (auto simp add: lit_def)
    moreover have "lazy_dot_plus (lit ''**'') (b @ ''**'' @ c) = Some (length b, 2)"
      using Cons.IH Cons.prems Cons by simp
    ultimately show ?thesis
      using Cons.prems by auto
  qed
qed

lemma star_pattern_pair:
  assumes "b \<noteq> []" and "CHR ''*'' \<notin> set b" and "CHR 0x0A \<notin> set b"
  shows "star_pattern (''**'' @ b @ ''**'' @ c) = Some (length b + 4, [b])"
  using lazy_until_stars [OF assms, of c] by (simp add: star_pattern_def)

lemma strip_stars_pair:
  assumes "CHR ''*'' \<notin> set a" and "b \<noteq> []" and "CHR ''*'' \<notin> set b" and "CHR 0x0A \<notin> set b"
  shows "strip_stars (a @ ''**'' @ b @ ''**'' @ c) = a @ b @ strip_stars c"
  using assms(1)
proof (induction a)
  case Nil
  have e: "length b + 4 - 1 = length (CHR ''*'' # b @ ''**'')"
    by simp
  have "drop (length (CHR ''*'' # b @ ''**'')) ((CHR ''*'' # b @ ''**'') @ c) = c"
    by (simp only: drop_append drop_all order_refl diff_self_eq_0 drop_0 append_Nil)
  then have d: "drop (length b + 4 - 1) (CHR ''*'' # b @ ''**'' @ c) = c"
    by (simp only: e) simp
  have "strip_stars (CHR ''*'' # CHR ''*'' # b @ ''**'' @ c) =
          [b] ! 0 @ strip_stars (drop (length b + 4 - 1) (CHR ''*'' # b @ ''**'' @ c))"
    using star_pattern_pair [OF assms(2-4), of c] by (simp del: drop_append)
  then show ?case
    by (simp only: d) simp
next
  case (Cons x a)
  then have "star_pattern (x # a @ ''**'' @ b @ ''**'' @ c) = None"
    by (auto simp add: star_pattern_def)
  with Cons show ?case
    by simp
qed

lemma strip_stars_id: "CHR ''*'' \<notin> set c \<Longrightarrow> strip_stars c = c"
proof (induction c)
  case Nil
  show ?case by simp
next
  case (Cons x c)
  then have "star_pattern (x # c) = None"
    by (auto simp add: star_pattern_def)
  with Cons show ?case
    by simp
qed

text \<open>
  C5. A line that is \<open>n\<close> characters \<open>#\<close> followed by a rest that does not start with \<open>#\<close>:
  for \<open>n\<close> from 1 to 6 the iteration adds one heading of level \<open>n\<close> whose text is the rest,
  stripped of the space around it and then of its double asterisks; for \<open>n\<close> above 6 it
  adds an ordinary paragraph made from the whole stripped line. Stripping the double
  asterisks turns \<open>a**b**c\<close> into \<open>abc\<close>, for texts \<open>a\<close>, \<open>b\<close> and \<open>c\<close> without asterisks.
\<close>

theorem heading_level:
  assumes "lines ! i = replicate n CHR ''#'' @ rest"
    and "\<not> startswith rest ''#''" and "0 < n"
  shows "(n \<le> 6 \<longrightarrow>
            dispatch lines i = ([Heading n (strip_stars (strip rest))], int i)) \<and>
         (6 < n \<longrightarrow>
            dispatch lines i =
              ([Paragraph (process_markdown_text (strip (lines ! i)))], int i)) \<and>
         (CHR ''*'' \<notin> set a \<and> b \<noteq> [] \<and> CHR ''*'' \<notin> set b \<and> CHR 0x0A \<notin> set b
            \<and> CHR ''*'' \<notin> set c \<longrightarrow>
            strip_stars (a @ ''**'' @ b @ ''**'' @ c) = a @ b @ c)"
proof -
  note h = heading_line [OF assms]
  have "drop n (strip (lines ! i)) = rstrip rest"
    by (simp add: h(1))
  then have "(n \<le> 6 \<longrightarrow>
            dispatch lines i = ([Heading n (strip_stars (strip rest))], int i)) \<and>
         (6 < n \<longrightarrow>
            dispatch lines i =
              ([Paragraph (process_markdown_text (strip (lines ! i)))], int i))"
    using h(2,3) by (simp add: dispatch_def Let_def strip_rstrip)
  moreover have "CHR ''*'' \<notin> set a \<and> b \<noteq> [] \<and> CHR ''*'' \<notin> set b \<and> CHR 0x0A \<notin> set b
            \<and> CHR ''*'' \<notin> set c \<longrightarrow>
            strip_stars (a @ ''**'' @ b @ ''**'' @ c) = a @ b @ c"
    using strip_stars_pair [of a b c] strip_stars_id [of c] by simp
  ultimately show ?thesis
    by blast
qed

theorem heading_level_witness:
  "dispatch [''## **Intro** one  ''] 0 = ([Heading 2 ''Intro one''], 0) \<and>
   dispatch [''####### seven''] 0 =
     ([Paragraph [\<lparr>run_text = ''####### seven'', font_name = SimSun, bold = False,
                   underline = False\<rparr>]], 0) \<and>
   strip_stars ([] @ ''**'' @ ''Intro'' @ ''**'' @ '' one'') = [] @ ''Intro'' @ '' one''"
proof -
  have a: "[''## **Intro** one  ''] ! 0 = replicate 2 CHR ''#'' @ '' **Intro** one  ''"
    by (simp add: numeral_2_eq_2)
  have b: "\<not> startswith '' **Intro** one  '' ''#''"
    by simp
  have c: "strip_stars (strip '' **Intro** one  '') = ''Intro one''"
    by code_simp
  have d: "[''####### seven''] ! 0 = replicate 7 CHR ''#'' @ '' seven''"
    by code_simp
  have e: "\<not> startswith '' seven'' ''#''"
    by simp
  have f: "process_markdown_text (strip ''####### seven'') =
             [\<lparr>run_text = ''####### seven'', font_name = SimSun, bold = False,
               underline = False\<rparr>]"
    by code_simp
  have z: "(0::nat) < 2"
    by simp
  have g: "CHR ''*'' \<notin> set [] \<and> ''Intro'' \<noteq> [] \<and> CHR ''*'' \<notin> set ''Intro''
             \<and> CHR 0x0A \<notin> set ''Intro'' \<and> CHR ''*'' \<notin> set '' one''"
    by simp
  have "dispatch [''## **Intro** one  ''] 0 = ([Heading 2 ''Intro one''], 0)"
    using heading_level [OF a b] c by simp
  moreover have "dispatch [''####### seven''] 0 =
     ([Paragraph [\<lparr>run_text = ''####### seven'', font_name = SimSun, bold = False,
                   underline = False\<rparr>]], 0)"
    using heading_level [OF d e] f by simp
  moreover have "strip_stars ([] @ ''**'' @ ''Intro'' @ ''**'' @ '' one'') =
                   [] @ ''Intro'' @ '' one''"
    using heading_level [OF a b z, of "[]" "''Intro''" "'' one''"] g by blast
  ultimately show ?thesis
    by blast
qed

section \<open>Fenced code blocks\<close>

lemma collect_eq:
  "collect P f lines j items =
     (items @ map f (takeWhile P (drop j lines)), j + length (takeWhile P (drop j lines)))"
proof (induction P f lines j items rule: collect.induct)
  case (1 P f lines j items)
  show ?case
  proof (cases "j < length lines \<and> P (lines ! j)")
    case True
    then have d: "drop j lines = lines ! j # drop (j + 1) lines"
      by (simp add: Cons_nth_drop_Suc)
    have "collect P f lines j items = collect P f lines (j + 1) (items @ [f (lines ! j)])"
      using True by (subst collect.simps) simp
    also have "\<dots> = (items @ [f (lines ! j)] @ map f (takeWhile P (drop (j + 1) lines)),
                     j + 1 + length (takeWhile P (drop (j + 1) lines)))"
      using 1 True by simp
    finally show ?thesis
      using True by (simp add: d)
  next
    case False
    then have "takeWhile P (drop j lines) = []"
      by (cases "j < length lines") (simp_all add: Cons_nth_drop_Suc [symmetric])
    moreover have "collect P f lines j items = (items, j)"
      using False by (subst collect.simps) auto
    ultimately show ?thesis by simp
  qed
qed

lemma fence_line:
  assumes "startswith line ''```''"
  shows "\<not> startswith line ''#''" and "\<not> rule_pattern line" and "\<not> startswith line ''|''"
    and "\<not> bullet_start line" and "\<not> number_start line"
proof -
  obtain s where l: "line = CHR 0x60 # s"
    using assms by (cases line) auto
  show "\<not> startswith line ''#''" and "\<not> startswith line ''|''"
    by (simp_all add: l)
  show "\<not> rule_pattern line"
    by (simp add: l rule_pattern_def)
  show "\<not> bullet_start line"
    by (cases s) (simp_all add: l bullet_char_def)
  show "\<not> number_start line"
    by (simp add: l number_start_def isdigit_def)
qed

lemma fence_dispatch:
  assumes "startswith (strip (lines ! i)) ''```''"
  shows "dispatch lines i =
           ([Code_Block (join [CHR 0x0A]
               (takeWhile (\<lambda>l. \<not> startswith l ''```'') (drop (i + 1) lines)))],
            int (i + 1 + length (takeWhile (\<lambda>l. \<not> startswith l ''```'') (drop (i + 1) lines))))"
  using assms fence_line [OF assms]
  by (simp add: dispatch_def Let_def collect_eq)

lemma takeWhile_until:
  "list_all P xs \<Longrightarrow> \<not> P y \<Longrightarrow> takeWhile P (xs @ y # ys) = xs"
  by (induction xs) simp_all

lemma startswith_Cons: "startswith l (p # ps) = (\<exists>s. l = p # s \<and> startswith s ps)"
  by (cases l) auto

lemma fence_raw: "startswith l ''```'' \<Longrightarrow> startswith (strip l) ''```''"
proof -
  assume "startswith l ''```''"
  then obtain s where l: "l = CHR 0x60 # CHR 0x60 # CHR 0x60 # s"
    by (auto simp add: startswith_Cons)
  have n: "\<not> isspace CHR 0x60"
    by (simp add: isspace_def)
  show ?thesis
    using n by (simp add: l strip_def lstrip_def rstrip_Cons)
qed

text \<open>
  C7. Lines that hold an opening fence (a line that starts with three backquotes once
  stripped, as every line does that starts with them unstripped), inner lines of which none starts with three backquotes, and a closing line
  that does: the iteration at the opening fence adds one code block whose text is the
  inner lines joined by newlines, and the loop goes on at the line after the closing
  fence, with nothing else added.
\<close>

theorem fenced_code_block:
  assumes "startswith (strip opening) ''```''"
    and "list_all (\<lambda>l. \<not> startswith l ''```'') inner"
    and "startswith closing ''```''"
  shows "dispatch (pre @ opening # inner @ closing # post) (length pre) =
           ([Code_Block (join [CHR 0x0A] inner)], int (length pre + length inner + 1))
       \<and> convert_loop (pre @ opening # inner @ closing # post) (length pre) document =
         convert_loop (pre @ opening # inner @ closing # post)
           (length pre + length inner + 2) (document @ [Code_Block (join [CHR 0x0A] inner)])"
proof -
  let ?lines = "pre @ opening # inner @ closing # post"
  have o: "?lines ! length pre = opening"
    by simp
  have d: "drop (length pre + 1) ?lines = inner @ closing # post"
    by simp
  have t: "takeWhile (\<lambda>l. \<not> startswith l ''```'') (inner @ closing # post) = inner"
    using assms(2,3) by (simp add: takeWhile_until)
  have a: "dispatch ?lines (length pre) =
             ([Code_Block (join [CHR 0x0A] inner)], int (length pre + length inner + 1))"
    using assms(1) by (simp only: fence_dispatch o d t) simp
  have "convert_loop ?lines (length pre) document =
          convert_loop ?lines (nat (int (length pre + length inner + 1) + 1))
            (document @ [Code_Block (join [CHR 0x0A] inner)])"
    by (subst convert_loop.simps) (simp add: a)
  moreover have "nat (int (length pre + length inner + 1) + 1) = length pre + length inner + 2"
    by simp
  ultimately show ?thesis
    using a by simp
qed

theorem fenced_code_block_witness:
  "convert_loop (split CHR 0x0A ''```\<newline>line1\<newline>line2\<newline>```'') 0 [] =
     Some [Code_Block ''line1\<newline>line2'']"
proof -
  have s: "split CHR 0x0A ''```\<newline>line1\<newline>line2\<newline>```'' =
             [] @ ''```'' # [''line1'', ''line2''] @ ''```'' # []"
    by code_simp
  have a: "startswith (strip ''```'') ''```''"
    by code_simp
  have b: "list_all (\<lambda>l. \<not> startswith l ''```'') [''line1'', ''line2'']"
    by simp
  have c: "startswith ''```'' ''```''"
    by simp
  have e: "convert_loop ([] @ ''```'' # [''line1'', ''line2''] @ ''```'' # [])
             (Suc (Suc (Suc (Suc 0)))) [Code_Block ''line1\<newline>line2''] =
           Some [Code_Block ''line1\<newline>line2'']"
    by (subst convert_loop.simps) simp
  show ?thesis
    using fenced_code_block [OF a b c, of "[]" "[]" "[]"] e
    by (simp only: s) simp
qed

section \<open>Termination\<close>

lemma rstrip_prefix: "\<exists>w. s = rstrip s @ w"
proof -
  have "rev s = takeWhile isspace (rev s) @ dropWhile isspace (rev s)"
    by simp
  then have "s = rev (dropWhile isspace (rev s)) @ rev (takeWhile isspace (rev s))"
    by (metis rev_append rev_rev_ident)
  then show ?thesis
    unfolding rstrip_def by blast
qed

lemma bullet_start_append: "bullet_start p \<Longrightarrow> bullet_start (p @ w)"
  by (cases p rule: bullet_start.cases) simp_all

lemma dot_space_append: "dot_space p \<Longrightarrow> dot_space (p @ w)"
  by (cases p rule: dot_space.cases) simp_all

lemma number_start_append:
  assumes "number_start p"
  shows "number_start (p @ w)"
proof -
  from assms have t: "takeWhile isdigit p \<noteq> []" and d: "dot_space (dropWhile isdigit p)"
    by (simp_all add: number_start_def)
  have "dropWhile isdigit p \<noteq> []"
  proof
    assume "dropWhile isdigit p = []"
    with d show False by simp
  qed
  then obtain x where x: "x \<in> set p" "\<not> isdigit x"
    by (metis dropWhile_eq_Nil_conv)
  then have "takeWhile isdigit (p @ w) = takeWhile isdigit p"
    and "dropWhile isdigit (p @ w) = dropWhile isdigit p @ w"
    by (simp_all add: takeWhile_append1 dropWhile_append1)
  with t d show ?thesis
    by (simp add: number_start_def dot_space_append)
qed

lemma bullet_start_strip: "bullet_start (strip l) \<Longrightarrow> bullet_line l"
proof -
  assume a: "bullet_start (strip l)"
  obtain w where "lstrip l = rstrip (lstrip l) @ w"
    using rstrip_prefix by blast
  then have "dropWhile isspace l = strip l @ w"
    by (simp add: strip_def lstrip_def)
  with a show ?thesis
    by (simp add: bullet_line_def bullet_start_append)
qed

lemma number_start_strip: "number_start (strip l) \<Longrightarrow> number_line l"
proof -
  assume a: "number_start (strip l)"
  obtain w where "lstrip l = rstrip (lstrip l) @ w"
    using rstrip_prefix by blast
  then have "dropWhile isspace l = strip l @ w"
    by (simp add: strip_def lstrip_def)
  with a show ?thesis
    by (simp add: number_line_def number_start_append)
qed

lemma collect_from:
  "j \<le> snd (collect P f lines j items)"
  by (simp add: collect_eq)

lemma collect_first:
  "j < length lines \<Longrightarrow> P (lines ! j) \<Longrightarrow> j + 1 \<le> snd (collect P f lines j items)"
  by (simp add: collect_eq Cons_nth_drop_Suc [symmetric])

lemma dispatch_advances:
  assumes "i < length lines"
  shows "int i \<le> snd (dispatch lines i)"
proof -
  have b: "bullet_start (strip (lines ! i)) \<Longrightarrow>
             i + 1 \<le> snd (collect bullet_line f lines i items)" for f :: "string \<Rightarrow> 'a" and items
    using assms collect_first [of i lines bullet_line f items] bullet_start_strip by blast
  have n: "number_start (strip (lines ! i)) \<Longrightarrow>
             i + 1 \<le> snd (collect number_line f lines i items)" for f :: "string \<Rightarrow> 'a" and items
    using assms collect_first [of i lines number_line f items] number_start_strip by blast
  have q: "startswith (strip (lines ! i)) ''>'' \<Longrightarrow>
             i + 1 \<le> snd (collect (\<lambda>l. startswith (strip l) ''>'') f lines i items)"
    for f :: "string \<Rightarrow> 'a" and items
    using assms collect_first [of i lines "\<lambda>l. startswith (strip l) ''>''" f items] by blast
  have t: "i + 1 \<le> snd (collect P f lines (i + 1) items)"
    for P and f :: "string \<Rightarrow> 'a" and items
    by (rule collect_from)
  show ?thesis
    using t [of "\<lambda>l. startswith (strip l) ''|''" strip "[strip (lines ! i)]"]
      b [of "\<lambda>l. (drop 2 (strip l), length l - length (lstrip l))" "[]"]
      n [of "\<lambda>l. drop 3 (strip l)" "[]"]
      t [of "\<lambda>l. \<not> startswith l ''```''" "\<lambda>l. l" "[]"]
      q [of "\<lambda>l. strip (drop 1 (strip l))" "[]"]
    by (auto simp add: dispatch_def Let_def case_prod_beta)
qed

lemma convert_loop_returns:
  "\<exists>document'. convert_loop lines i document = Some document'"
proof (induction "length lines - i" arbitrary: i document rule: less_induct)
  case less
  show ?case
  proof (cases "i < length lines")
    case True
    obtain blocks i' where d: "dispatch lines i = (blocks, i')"
      by (cases "dispatch lines i")
    with dispatch_advances [OF True] have "int i \<le> i'"
      by simp
    then have "length lines - nat (i' + 1) < length lines - i"
      using True by linarith
    from less [OF this] obtain document' where
      "convert_loop lines (nat (i' + 1)) (document @ blocks) = Some document'"
      by blast
    then show ?thesis
      using True d by (subst convert_loop.simps) simp
  next
    case False
    then show ?thesis
      by (subst convert_loop.simps) simp
  qed
qed

lemma unterminated_fence:
  assumes "startswith (strip opening) ''```''"
    and "list_all (\<lambda>l. \<not> startswith l ''```'') inner"
  shows "dispatch (pre @ opening # inner) (length pre) =
           ([Code_Block (join [CHR 0x0A] inner)], int (length (pre @ opening # inner)))"
proof -
  let ?lines = "pre @ opening # inner"
  have o: "?lines ! length pre = opening"
    by simp
  have d: "drop (length pre + 1) ?lines = inner"
    by simp
  have t: "takeWhile (\<lambda>l. \<not> startswith l ''```'') inner = inner"
    using assms(2) by (simp add: list_all_iff)
  show ?thesis
    using assms(1) by (simp only: fence_dispatch o d t) simp
qed

text \<open>
  C10. The loop over the lines returns a document for every list of lines; every
  iteration at a line \<open>i\<close> leaves the cursor above \<open>i\<close>; and an opening fence with no
  closing fence after it takes all the lines that are left, puts the cursor past the
  last line and ends the loop with the code block added.
\<close>

theorem conversion_terminates:
  "(\<exists>document. convert_loop lines 0 [] = Some document) \<and>
   (i < length lines \<longrightarrow> int i < snd (dispatch lines i) + 1) \<and>
   (startswith (strip opening) ''```'' \<and> list_all (\<lambda>l. \<not> startswith l ''```'') inner \<longrightarrow>
      snd (dispatch (pre @ opening # inner) (length pre)) + 1 =
        int (length (pre @ opening # inner)) + 1 \<and>
      convert_loop (pre @ opening # inner) (length pre) document0 =
        Some (document0 @ [Code_Block (join [CHR 0x0A] inner)]))"
proof (intro conjI impI)
  show "\<exists>document. convert_loop lines 0 [] = Some document"
    by (rule convert_loop_returns)
next
  assume "i < length lines"
  from dispatch_advances [OF this] show "int i < snd (dispatch lines i) + 1"
    by simp
next
  assume a: "startswith (strip opening) ''```'' \<and> list_all (\<lambda>l. \<not> startswith l ''```'') inner"
  then have d: "dispatch (pre @ opening # inner) (length pre) =
           ([Code_Block (join [CHR 0x0A] inner)], int (length (pre @ opening # inner)))"
    by (simp add: unterminated_fence)
  then show "snd (dispatch (pre @ opening # inner) (length pre)) + 1 =
        int (length (pre @ opening # inner)) + 1"
    by simp
  have "convert_loop (pre @ opening # inner) (length pre) document0 =
          convert_loop (pre @ opening # inner) (nat (int (length (pre @ opening # inner)) + 1))
            (document0 @ [Code_Block (join [CHR 0x0A] inner)])"
    by (subst convert_loop.simps) (simp add: d)
  also have "\<dots> = convert_loop (pre @ opening # inner) (length (pre @ opening # inner) + 1)
            (document0 @ [Code_Block (join [CHR 0x0A] inner)])"
    by (simp add: nat_add_distrib)
  also have "\<dots> = Some (document0 @ [Code_Block (join [CHR 0x0A] inner)])"
    by (subst convert_loop.simps) simp
  finally show "convert_loop (pre @ opening # inner) (length pre) document0 =
        Some (document0 @ [Code_Block (join [CHR 0x0A] inner)])" .
qed

theorem conversion_terminates_witness:
  "(\<exists>document. convert_loop [''# t'', ''```'', ''x''] 0 [] = Some document) \<and>
   int 1 < snd (dispatch [''# t'', ''```'', ''x''] 1) + 1 \<and>
   snd (dispatch [''# t'', ''```'', ''x''] 1) + 1 = 4 \<and>
   convert_loop [''# t'', ''```'', ''x''] 1 [Heading 1 ''t''] =
     Some [Heading 1 ''t'', Code_Block ''x'']"
proof -
  have a: "startswith (strip ''```'') ''```'' \<and> list_all (\<lambda>l. \<not> startswith l ''```'') [''x'']"
    by code_simp
  have b: "(1::nat) < length [''# t'', ''```'', ''x'']"
    by simp
  show ?thesis
    using conversion_terminates [of "[''# t'', ''```'', ''x'']" 1 "''```''" "[''x'']" "[''# t'']"
        "[Heading 1 ''t'']"] a b
    by simp
qed

section \<open>The output path\<close>

lemma splitext_parts: "fst (splitext p) @ snd (splitext p) = p"
  by (simp add: splitext_def Let_def)

lemma report_md: "resolve_docx_path ''report.md'' None = ''report.docx''"
  by code_simp

text \<open>
  C9. With the output path omitted, the resolved path is the root that \<open>splitext\<close> gives
  for the input path, followed by \<open>.docx\<close>; root and extension together are the input
  path. The path \<open>report.md\<close> has the root \<open>report\<close> and resolves to \<open>report.docx\<close>, and
  a conversion that returns a path returns the resolved one.
\<close>

theorem output_path_omitted:
  "resolve_docx_path md_file_path None = fst (splitext md_file_path) @ ''.docx'' \<and>
   fst (splitext md_file_path) @ snd (splitext md_file_path) = md_file_path \<and>
   splitext ''report.md'' = (''report'', ''.md'') \<and>
   resolve_docx_path ''report.md'' None = ''report.docx'' \<and>
   (convert_markdown_to_word md_file_path None w = Some (Inr (output_path, w')) \<longrightarrow>
      output_path = fst (splitext md_file_path) @ ''.docx'')"
proof (intro conjI impI)
  show "resolve_docx_path md_file_path None = fst (splitext md_file_path) @ ''.docx''"
    by (simp add: resolve_docx_path_def omitted_def)
  show "fst (splitext md_file_path) @ snd (splitext md_file_path) = md_file_path"
    by (rule splitext_parts)
  show "splitext ''report.md'' = (''report'', ''.md'')"
    by code_simp
  show "resolve_docx_path ''report.md'' None = ''report.docx''"
    by (rule report_md)
  assume "convert_markdown_to_word md_file_path None w = Some (Inr (output_path, w'))"
  then show "output_path = fst (splitext md_file_path) @ ''.docx''"
    by (auto simp add: convert_markdown_to_word_def Let_def resolve_docx_path_def omitted_def
        split: sum.splits option.splits)
qed

lemma one_heading: "convert_loop [''# Title''] 0 [] = Some [Heading 1 ''Title'']"
proof -
  have d: "dispatch [''# Title''] 0 = ([Heading 1 ''Title''], 0)"
    by code_simp
  have "convert_loop [''# Title''] 0 [] = convert_loop [''# Title''] 1 [Heading 1 ''Title'']"
    by (subst convert_loop.simps) (simp add: d)
  also have "\<dots> = Some [Heading 1 ''Title'']"
    by (subst convert_loop.simps) simp
  finally show ?thesis .
qed

lemma report_conversion: "convert_markdown_to_word ''report.md'' None
     \<lparr>files = [''report.md'' \<mapsto> Markdown ''# Title''], writable = (\<lambda>p. True)\<rparr> =
     Some (Inr (''report.docx'',
       \<lparr>files = [''report.md'' \<mapsto> Markdown ''# Title'', ''report.docx'' \<mapsto> Word [Heading 1 ''Title'']],
        writable = (\<lambda>p. True)\<rparr>))"
proof -
  let ?w = "\<lparr>files = [''report.md'' \<mapsto> Markdown ''# Title''], writable = (\<lambda>p. True)\<rparr>"
  have r: "read_text ?w ''report.md'' = Inr ''# Title''"
    by (simp add: read_text_def)
  have l: "split CHR 0x0A ''# Title'' = [''# Title'']"
    by code_simp
  have s: "save ?w ''report.docx'' [Heading 1 ''Title''] =
     Inr \<lparr>files = [''report.md'' \<mapsto> Markdown ''# Title'', ''report.docx'' \<mapsto> Word [Heading 1 ''Title'']],
        writable = (\<lambda>p. True)\<rparr>"
    by (simp add: save_def)
  show ?thesis
    using r one_heading s by (simp add: convert_markdown_to_word_def Let_def report_md)
qed

theorem output_path_omitted_witness:
  "convert_markdown_to_word ''report.md'' None
     \<lparr>files = [''report.md'' \<mapsto> Markdown ''# Title''], writable = (\<lambda>p. True)\<rparr> =
     Some (Inr (''report.docx'',
       \<lparr>files = [''report.md'' \<mapsto> Markdown ''# Title'', ''report.docx'' \<mapsto> Word [Heading 1 ''Title'']],
        writable = (\<lambda>p. True)\<rparr>)) \<and>
   ''report.docx'' = fst (splitext ''report.md'') @ ''.docx''"
  using output_path_omitted [of "''report.md''"
      "\<lparr>files = [''report.md'' \<mapsto> Markdown ''# Title''], writable = (\<lambda>p. True)\<rparr>"
      "''report.docx''"
      "\<lparr>files = [''report.md'' \<mapsto> Markdown ''# Title'',
                        ''report.docx'' \<mapsto> Word [Heading 1 ''Title'']],
              writable = (\<lambda>p. True)\<rparr>"] report_conversion
  by blast

section \<open>Exit codes\<close>

lemma main_converted:
  assumes "2 \<le> length argv" and "path_exists w (argv ! 1)"
    and "convert_markdown_to_word (argv ! 1) (output_arg argv) w = Some (Inr (output_path, w'))"
  shows "main argv w = Some \<lparr>stdout = [Saved output_path], exit_code = 0, final = w'\<rparr>"
proof -
  have l: "\<not> length argv < 2"
    using assms(1) by simp
  show ?thesis
    using l assms(2,3) by (simp add: main_def Let_def)
qed

lemma converted_path:
  "convert_markdown_to_word md_file_path docx_file_path w = Some (Inr (output_path, w')) \<Longrightarrow>
   output_path = resolve_docx_path md_file_path docx_file_path"
  by (auto simp add: convert_markdown_to_word_def Let_def split: sum.splits option.splits)

lemma resolved_given:
  "resolve_docx_path md_file_path (if 2 < length argv then Some (argv ! 2) else None) =
     (if 2 < length argv \<and> argv ! 2 \<noteq> [] then argv ! 2
      else fst (splitext md_file_path) @ ''.docx'')"
  by (simp add: resolve_docx_path_def omitted_def)

lemma out_conversion:
  "convert_markdown_to_word ''report.md'' (Some ''out.docx'')
     \<lparr>files = [''report.md'' \<mapsto> Markdown ''# Title''], writable = (\<lambda>p. True)\<rparr> =
     Some (Inr (''out.docx'',
       \<lparr>files = [''report.md'' \<mapsto> Markdown ''# Title'',
                 ''out.docx'' \<mapsto> Word [Heading 1 ''Title'']],
        writable = (\<lambda>p. True)\<rparr>))"
proof -
  let ?w = "\<lparr>files = [''report.md'' \<mapsto> Markdown ''# Title''], writable = (\<lambda>p. True)\<rparr>"
  have p: "resolve_docx_path ''report.md'' (Some ''out.docx'') = ''out.docx''"
    by (simp add: resolve_docx_path_def omitted_def)
  have r: "read_text ?w ''report.md'' = Inr ''# Title''"
    by (simp add: read_text_def)
  have s: "save ?w ''out.docx'' [Heading 1 ''Title''] =
     Inr \<lparr>files = [''report.md'' \<mapsto> Markdown ''# Title'',
                    ''out.docx'' \<mapsto> Word [Heading 1 ''Title'']],
          writable = (\<lambda>p. True)\<rparr>"
    by (simp add: save_def)
  show ?thesis
    using r one_heading s by (simp add: convert_markdown_to_word_def Let_def p)
qed

text \<open>
  C8. With no input path on the command line \<open>main\<close> exits with code 1. With an input
  path that does not exist it prints the message that names the path, exits with code 1
  and leaves the file system as it was, so no output file is made. When the conversion
  returns, called with the third word of the command line as the output path if there is
  one and with no output path otherwise, \<open>main\<close> prints the path it returned and exits
  with code 0. That path is the resolved output path: the third word of the command line
  if there is one and it is not empty, and otherwise the root of the input path followed
  by \<open>.docx\<close>.
\<close>

theorem main_exit_codes:
  "(length argv < 2 \<longrightarrow>
      main argv w =
        Some \<lparr>stdout = (case argv of [] \<Rightarrow> [] | prog # args \<Rightarrow> [Usage prog]),
              exit_code = 1, final = w\<rparr>) \<and>
   (2 \<le> length argv \<and> \<not> path_exists w (argv ! 1) \<longrightarrow>
      main argv w = Some \<lparr>stdout = [Not_Found (argv ! 1)], exit_code = 1, final = w\<rparr>) \<and>
   (2 \<le> length argv \<and> path_exists w (argv ! 1)
      \<and> convert_markdown_to_word (argv ! 1)
            (if 2 < length argv then Some (argv ! 2) else None) w = Some (Inr (output_path, w'))
      \<longrightarrow>
      main argv w = Some \<lparr>stdout = [Saved output_path], exit_code = 0, final = w'\<rparr>
      \<and> output_path =
          (if 2 < length argv \<and> argv ! 2 \<noteq> [] then argv ! 2
           else fst (splitext (argv ! 1)) @ ''.docx''))"
proof (intro conjI impI)
  assume "length argv < 2"
  then show "main argv w =
        Some \<lparr>stdout = (case argv of [] \<Rightarrow> [] | prog # args \<Rightarrow> [Usage prog]),
              exit_code = 1, final = w\<rparr>"
    by (cases argv) (simp_all add: main_def)
next
  assume "2 \<le> length argv \<and> \<not> path_exists w (argv ! 1)"
  then show "main argv w = Some \<lparr>stdout = [Not_Found (argv ! 1)], exit_code = 1, final = w\<rparr>"
    by (simp add: main_def)
next
  assume a: "2 \<le> length argv \<and> path_exists w (argv ! 1)
      \<and> convert_markdown_to_word (argv ! 1)
            (if 2 < length argv then Some (argv ! 2) else None) w = Some (Inr (output_path, w'))"
  have o: "output_arg argv = (if 2 < length argv then Some (argv ! 2) else None)"
    by (simp add: output_arg_def)
  from a have c: "convert_markdown_to_word (argv ! 1) (output_arg argv) w =
                    Some (Inr (output_path, w'))"
    by (simp only: o)
  from a c show "main argv w = Some \<lparr>stdout = [Saved output_path], exit_code = 0, final = w'\<rparr>"
    using main_converted by blast
  from a have "output_path =
      resolve_docx_path (argv ! 1) (if 2 < length argv then Some (argv ! 2) else None)"
    using converted_path by blast
  then show "output_path =
          (if 2 < length argv \<and> argv ! 2 \<noteq> [] then argv ! 2
           else fst (splitext (argv ! 1)) @ ''.docx'')"
    by (simp only: resolved_given)
qed

theorem main_exit_codes_witness:
  "main [''md_to_word.py''] \<lparr>files = Map.empty, writable = (\<lambda>p. True)\<rparr> =
     Some \<lparr>stdout = [Usage ''md_to_word.py''], exit_code = 1,
           final = \<lparr>files = Map.empty, writable = (\<lambda>p. True)\<rparr>\<rparr> \<and>
   main [''md_to_word.py'', ''missing.md''] \<lparr>files = Map.empty, writable = (\<lambda>p. True)\<rparr> =
     Some \<lparr>stdout = [Not_Found ''missing.md''], exit_code = 1,
           final = \<lparr>files = Map.empty, writable = (\<lambda>p. True)\<rparr>\<rparr> \<and>
   main [''md_to_word.py'', ''report.md'']
       \<lparr>files = [''report.md'' \<mapsto> Markdown ''# Title''], writable = (\<lambda>p. True)\<rparr> =
     Some \<lparr>stdout = [Saved ''report.docx''], exit_code = 0,
           final = \<lparr>files = [''report.md'' \<mapsto> Markdown ''# Title'',
                                ''report.docx'' \<mapsto> Word [Heading 1 ''Title'']],
                     writable = (\<lambda>p. True)\<rparr>\<rparr> \<and>
   main [''md_to_word.py'', ''report.md'', ''out.docx'']
       \<lparr>files = [''report.md'' \<mapsto> Markdown ''# Title''], writable = (\<lambda>p. True)\<rparr> =
     Some \<lparr>stdout = [Saved ''out.docx''], exit_code = 0,
           final = \<lparr>files = [''report.md'' \<mapsto> Markdown ''# Title'',
                                ''out.docx'' \<mapsto> Word [Heading 1 ''Title'']],
                     writable = (\<lambda>p. True)\<rparr>\<rparr> \<and>
   ''out.docx'' =
     (if 2 < length [''md_to_word.py'', ''report.md'', ''out.docx'']
         \<and> [''md_to_word.py'', ''report.md'', ''out.docx''] ! 2 \<noteq> []
      then [''md_to_word.py'', ''report.md'', ''out.docx''] ! 2
      else fst (splitext ([''md_to_word.py'', ''report.md'', ''out.docx''] ! 1)) @ ''.docx'')"
proof -
  let ?e = "\<lparr>files = Map.empty, writable = (\<lambda>p. True)\<rparr>"
  let ?w = "\<lparr>files = [''report.md'' \<mapsto> Markdown ''# Title''], writable = (\<lambda>p. True)\<rparr>"
  have "length [''md_to_word.py''] < 2"
    by simp
  with main_exit_codes [of "[''md_to_word.py'']" ?e]
  have a: "main [''md_to_word.py''] ?e =
             Some \<lparr>stdout = [Usage ''md_to_word.py''], exit_code = 1, final = ?e\<rparr>"
    by simp
  have "2 \<le> length [''md_to_word.py'', ''missing.md''] \<and>
        \<not> path_exists ?e ([''md_to_word.py'', ''missing.md''] ! 1)"
    by (simp add: path_exists_def)
  with main_exit_codes [of "[''md_to_word.py'', ''missing.md'']" ?e]
  have b: "main [''md_to_word.py'', ''missing.md''] ?e =
             Some \<lparr>stdout = [Not_Found ''missing.md''], exit_code = 1, final = ?e\<rparr>"
    by simp
  let ?w' = "\<lparr>files = [''report.md'' \<mapsto> Markdown ''# Title'',
                        ''report.docx'' \<mapsto> Word [Heading 1 ''Title'']],
              writable = (\<lambda>p. True)\<rparr>"
  have "2 \<le> length [''md_to_word.py'', ''report.md''] \<and>
        path_exists ?w ([''md_to_word.py'', ''report.md''] ! 1) \<and>
        convert_markdown_to_word ([''md_to_word.py'', ''report.md''] ! 1)
          (if 2 < length [''md_to_word.py'', ''report.md'']
           then Some ([''md_to_word.py'', ''report.md''] ! 2) else None) ?w =
          Some (Inr (''report.docx'', ?w'))"
    using report_conversion by (simp add: path_exists_def)
  with main_exit_codes [of "[''md_to_word.py'', ''report.md'']" ?w "''report.docx''" ?w']
  have c: "main [''md_to_word.py'', ''report.md''] ?w =
     Some \<lparr>stdout = [Saved ''report.docx''], exit_code = 0, final = ?w'\<rparr>"
    by blast
  let ?o = "\<lparr>files = [''report.md'' \<mapsto> Markdown ''# Title'',
                       ''out.docx'' \<mapsto> Word [Heading 1 ''Title'']],
             writable = (\<lambda>p. True)\<rparr>"
  let ?argv = "[''md_to_word.py'', ''report.md'', ''out.docx'']"
  have "2 \<le> length ?argv \<and> path_exists ?w (?argv ! 1) \<and>
        convert_markdown_to_word (?argv ! 1)
          (if 2 < length ?argv then Some (?argv ! 2) else None) ?w =
          Some (Inr (''out.docx'', ?o))"
    using out_conversion by (simp add: path_exists_def)
  with main_exit_codes [of ?argv ?w "''out.docx''" ?o]
  have d: "main ?argv ?w = Some \<lparr>stdout = [Saved ''out.docx''], exit_code = 0, final = ?o\<rparr>"
    and f: "''out.docx'' =
     (if 2 < length ?argv \<and> ?argv ! 2 \<noteq> [] then ?argv ! 2
      else fst (splitext (?argv ! 1)) @ ''.docx'')"
    by blast+
  from a b c d f show ?thesis
    by blast
qed

end
